theory Spec2Isabelle
  imports Main
begin

section \<open>Feature toggle cascade: the data\<close>

text \<open>
  The development follows \<^verbatim>\<open>src/scripts/feature-toggle-cascade.sql\<close>: the table
  \<^verbatim>\<open>feature_deactivated_items\<close>, the trigger function
  \<^verbatim>\<open>handle_feature_toggle_cascade\<close> and the trigger
  \<^verbatim>\<open>trigger_feature_toggle_cascade\<close> on \<^verbatim>\<open>company_features\<close>.

  SQL values that may be NULL are \<open>option\<close> values (\<open>None\<close> is NULL); a comparison
  \<^verbatim>\<open>col = true\<close> in a WHERE or IF holds only for \<open>Some True\<close>, as in SQL, where a NULL
  comparison does not select the row. Tables are lists of rows.
\<close>

type_synonym uuid = nat
type_synonym timestamp = nat

text \<open>
  A row of one of the target tables \<^verbatim>\<open>coupons\<close>, \<^verbatim>\<open>promotions\<close>, \<^verbatim>\<open>tables\<close>: the three
  columns the trigger function reads or writes (\<^verbatim>\<open>id\<close>, \<^verbatim>\<open>company_id\<close>, \<^verbatim>\<open>is_active\<close>).
  Every other column of the table lives in the extension part of the record, which the
  functions below are polymorphic in. \<^verbatim>\<open>delivery_drivers\<close> has \<^verbatim>\<open>is_available\<close> besides.
\<close>

record target_row =
  row_id :: uuid
  row_company_id :: "uuid option"
  is_active :: "bool option"

record driver_row = target_row +
  is_available :: "bool option"

text \<open>
  A row of \<^verbatim>\<open>feature_deactivated_items\<close> (lines 8-16). The surrogate key \<^verbatim>\<open>id\<close>, filled by
  \<^verbatim>\<open>gen_random_uuid()\<close> and never read, is left out; \<^verbatim>\<open>deactivated_at\<close> defaults to
  \<^verbatim>\<open>now()\<close>, which the functions below take as a parameter. The reference from
  \<^verbatim>\<open>company_id\<close> to \<^verbatim>\<open>companies\<close> is taken to hold for the company of the
  \<^verbatim>\<open>company_features\<close> row the trigger fires for, the only value the function stores.
\<close>

record fdi_row =
  company_id :: uuid
  feature_key :: string
  table_name :: string
  item_id :: uuid
  deactivated_at :: "timestamp option"

text \<open>The columns of a \<^verbatim>\<open>company_features\<close> row that the trigger reads.\<close>

record cf_row =
  cf_feature_id :: "uuid option"
  cf_company_id :: "uuid option"
  cf_is_active :: "bool option"

datatype tg_op = INSERT | UPDATE | DELETE

text \<open>
  The database as far as the trigger function sees it. \<^verbatim>\<open>system_features\<close> is the list of
  its (\<^verbatim>\<open>id\<close>, \<^verbatim>\<open>key\<close>) pairs.
\<close>

record ('c, 'p, 'd, 't) db =
  system_features :: "(uuid \<times> string option) list"
  coupons :: "'c target_row_scheme list"
  promotions :: "'p target_row_scheme list"
  delivery_drivers :: "'d driver_row_scheme list"
  tables :: "'t target_row_scheme list"
  feature_deactivated_items :: "fdi_row list"

section \<open>The SQL statements\<close>

text \<open>\<^verbatim>\<open>COALESCE(a, b)\<close> and the field of a row variable that may itself be NULL.\<close>

definition coalesce :: "'a option \<Rightarrow> 'a option \<Rightarrow> 'a option" where
  "coalesce a b = (case a of Some x \<Rightarrow> Some x | None \<Rightarrow> b)"

definition field :: "('r \<Rightarrow> 'a option) \<Rightarrow> 'r option \<Rightarrow> 'a option" where
  "field f r = (case r of None \<Rightarrow> None | Some x \<Rightarrow> f x)"

text \<open>\<^verbatim>\<open>SELECT key INTO v_feature_key FROM system_features WHERE id = ...\<close> (lines 41-43).\<close>

definition select_key :: "(uuid \<times> string option) list \<Rightarrow> uuid option \<Rightarrow> string option" where
  "select_key sf fid =
     (case fid of
        None \<Rightarrow> None
      | Some i \<Rightarrow> (case map_of sf i of None \<Rightarrow> None | Some k \<Rightarrow> k))"

text \<open>The columns of the UNIQUE constraint of \<^verbatim>\<open>feature_deactivated_items\<close> (line 15).\<close>

definition conflict_key :: "fdi_row \<Rightarrow> uuid \<times> string \<times> string \<times> uuid" where
  "conflict_key x = (company_id x, feature_key x, table_name x, item_id x)"

text \<open>
  \<^verbatim>\<open>INSERT ... ON CONFLICT (company_id, feature_key, table_name, item_id) DO NOTHING\<close>:
  the rows are taken one by one, and a row whose key is already in the table (there
  before, or put there by the same statement) is skipped.
\<close>

fun insert_on_conflict_do_nothing :: "fdi_row list \<Rightarrow> fdi_row list \<Rightarrow> fdi_row list" where
  "insert_on_conflict_do_nothing [] fdi = fdi"
| "insert_on_conflict_do_nothing (x # xs) fdi =
     insert_on_conflict_do_nothing xs
       (if conflict_key x \<in> conflict_key ` set fdi then fdi else fdi @ [x])"

text \<open>
  The INSERT of a deactivation branch (lines 59-63 and its three siblings): one row for
  every row of the target table with \<^verbatim>\<open>company_id = v_company_id AND is_active = true\<close>.
\<close>

definition snapshot_active ::
  "timestamp \<Rightarrow> uuid \<Rightarrow> string \<Rightarrow> string \<Rightarrow> 'a target_row_scheme list \<Rightarrow> fdi_row list \<Rightarrow> fdi_row list"
where
  "snapshot_active now v k t tbl fdi =
     insert_on_conflict_do_nothing
       (map (\<lambda>r. \<lparr>company_id = v, feature_key = k, table_name = t, item_id = row_id r,
                  deactivated_at = Some now\<rparr>)
            (filter (\<lambda>r. row_company_id r = Some v \<and> is_active r = Some True) tbl))
       fdi"

text \<open>\<^verbatim>\<open>UPDATE t SET is_active = false WHERE company_id = v_company_id AND is_active = true\<close>.\<close>

definition deactivate_active :: "uuid \<Rightarrow> 'a target_row_scheme list \<Rightarrow> 'a target_row_scheme list" where
  "deactivate_active v tbl =
     map (\<lambda>r. if row_company_id r = Some v \<and> is_active r = Some True
              then r\<lparr>is_active := Some False\<rparr> else r) tbl"

text \<open>The same for \<^verbatim>\<open>delivery_drivers\<close>, which sets \<^verbatim>\<open>is_available = false\<close> too (line 85).\<close>

definition deactivate_active_drivers ::
  "uuid \<Rightarrow> 'a driver_row_scheme list \<Rightarrow> 'a driver_row_scheme list" where
  "deactivate_active_drivers v tbl =
     map (\<lambda>r. if row_company_id r = Some v \<and> is_active r = Some True
              then r\<lparr>is_active := Some False, is_available := Some False\<rparr> else r) tbl"

text \<open>
  \<^verbatim>\<open>SELECT item_id FROM feature_deactivated_items WHERE company_id = v_company_id AND
  feature_key = v_feature_key AND table_name = t\<close> (lines 111-114).
\<close>

definition snapshot_ids :: "uuid \<Rightarrow> string \<Rightarrow> string \<Rightarrow> fdi_row list \<Rightarrow> uuid list" where
  "snapshot_ids v k t fdi =
     map item_id (filter (\<lambda>x. company_id x = v \<and> feature_key x = k \<and> table_name x = t) fdi)"

text \<open>\<^verbatim>\<open>UPDATE t SET is_active = true WHERE id IN (...)\<close> (lines 109-115); all four tables alike.\<close>

definition restore_ids :: "uuid list \<Rightarrow> 'a target_row_scheme list \<Rightarrow> 'a target_row_scheme list" where
  "restore_ids ids tbl =
     map (\<lambda>r. if row_id r \<in> set ids then r\<lparr>is_active := Some True\<rparr> else r) tbl"

text \<open>\<^verbatim>\<open>DELETE FROM feature_deactivated_items WHERE ...\<close> (lines 118-121).\<close>

definition clear_snapshot :: "uuid \<Rightarrow> string \<Rightarrow> string \<Rightarrow> fdi_row list \<Rightarrow> fdi_row list" where
  "clear_snapshot v k t fdi =
     filter (\<lambda>x. \<not> (company_id x = v \<and> feature_key x = k \<and> table_name x = t)) fdi"

section \<open>The trigger function\<close>

text \<open>
  A branch of the function is a sequence of SQL statements, each a change of the database;
  they run in the order written.
\<close>

definition run :: "('s \<Rightarrow> 's) list \<Rightarrow> 's \<Rightarrow> 's" where
  "run stmts s = foldl (\<lambda>s stmt. stmt s) s stmts"

text \<open>
  The CASE of the deactivation branch (lines 56-101): for each feature key the INSERT
  into \<^verbatim>\<open>feature_deactivated_items\<close>, then the UPDATE of the target table; nothing for
  any other key (\<^verbatim>\<open>ELSE NULL\<close>).
\<close>

definition deactivating_stmts ::
  "timestamp \<Rightarrow> uuid \<Rightarrow> string \<Rightarrow> (('c, 'p, 'd, 't) db \<Rightarrow> ('c, 'p, 'd, 't) db) list" where
  "deactivating_stmts now v k =
     (if k = ''coupons'' then
        [\<lambda>s. s\<lparr>feature_deactivated_items :=
                  snapshot_active now v k ''coupons'' (coupons s) (feature_deactivated_items s)\<rparr>,
         \<lambda>s. s\<lparr>coupons := deactivate_active v (coupons s)\<rparr>]
      else if k = ''promotions'' then
        [\<lambda>s. s\<lparr>feature_deactivated_items :=
                  snapshot_active now v k ''promotions'' (promotions s)
                    (feature_deactivated_items s)\<rparr>,
         \<lambda>s. s\<lparr>promotions := deactivate_active v (promotions s)\<rparr>]
      else if k = ''drivers'' then
        [\<lambda>s. s\<lparr>feature_deactivated_items :=
                  snapshot_active now v k ''delivery_drivers'' (delivery_drivers s)
                    (feature_deactivated_items s)\<rparr>,
         \<lambda>s. s\<lparr>delivery_drivers := deactivate_active_drivers v (delivery_drivers s)\<rparr>]
      else if k = ''tables'' then
        [\<lambda>s. s\<lparr>feature_deactivated_items :=
                  snapshot_active now v k ''tables'' (tables s) (feature_deactivated_items s)\<rparr>,
         \<lambda>s. s\<lparr>tables := deactivate_active v (tables s)\<rparr>]
      else [])"

definition deactivating ::
  "timestamp \<Rightarrow> uuid \<Rightarrow> string \<Rightarrow> ('c, 'p, 'd, 't) db \<Rightarrow> ('c, 'p, 'd, 't) db" where
  "deactivating now v k s = run (deactivating_stmts now v k) s"

text \<open>
  The CASE of the reactivation branch (lines 106-167): for each feature key the UPDATE of
  the target table, then the DELETE from \<^verbatim>\<open>feature_deactivated_items\<close>.
\<close>

definition reactivating_stmts ::
  "uuid \<Rightarrow> string \<Rightarrow> (('c, 'p, 'd, 't) db \<Rightarrow> ('c, 'p, 'd, 't) db) list" where
  "reactivating_stmts v k =
     (if k = ''coupons'' then
        [\<lambda>s. s\<lparr>coupons :=
                  restore_ids (snapshot_ids v k ''coupons'' (feature_deactivated_items s))
                    (coupons s)\<rparr>,
         \<lambda>s. s\<lparr>feature_deactivated_items :=
                  clear_snapshot v k ''coupons'' (feature_deactivated_items s)\<rparr>]
      else if k = ''promotions'' then
        [\<lambda>s. s\<lparr>promotions :=
                  restore_ids (snapshot_ids v k ''promotions'' (feature_deactivated_items s))
                    (promotions s)\<rparr>,
         \<lambda>s. s\<lparr>feature_deactivated_items :=
                  clear_snapshot v k ''promotions'' (feature_deactivated_items s)\<rparr>]
      else if k = ''drivers'' then
        [\<lambda>s. s\<lparr>delivery_drivers :=
                  restore_ids
                    (snapshot_ids v k ''delivery_drivers'' (feature_deactivated_items s))
                    (delivery_drivers s)\<rparr>,
         \<lambda>s. s\<lparr>feature_deactivated_items :=
                  clear_snapshot v k ''delivery_drivers'' (feature_deactivated_items s)\<rparr>]
      else if k = ''tables'' then
        [\<lambda>s. s\<lparr>tables :=
                  restore_ids (snapshot_ids v k ''tables'' (feature_deactivated_items s))
                    (tables s)\<rparr>,
         \<lambda>s. s\<lparr>feature_deactivated_items :=
                  clear_snapshot v k ''tables'' (feature_deactivated_items s)\<rparr>]
      else [])"

definition reactivating :: "uuid \<Rightarrow> string \<Rightarrow> ('c, 'p, 'd, 't) db \<Rightarrow> ('c, 'p, 'd, 't) db" where
  "reactivating v k s = run (reactivating_stmts v k) s"

text \<open>
  The two variables of the function: \<^verbatim>\<open>v_feature_key\<close> (lines 41-43) and
  \<^verbatim>\<open>v_company_id\<close> (line 46).
\<close>

definition v_feature_key ::
  "('c, 'p, 'd, 't) db \<Rightarrow> cf_row option \<Rightarrow> cf_row option \<Rightarrow> string option" where
  "v_feature_key s OLD NEW =
     select_key (system_features s) (coalesce (field cf_feature_id NEW) (field cf_feature_id OLD))"

definition v_company_id :: "cf_row option \<Rightarrow> cf_row option \<Rightarrow> uuid option" where
  "v_company_id OLD NEW = coalesce (field cf_company_id NEW) (field cf_company_id OLD)"

text \<open>
  \<^verbatim>\<open>handle_feature_toggle_cascade()\<close> (lines 30-173), with \<^verbatim>\<open>TG_OP\<close>, \<^verbatim>\<open>OLD\<close> and \<^verbatim>\<open>NEW\<close> as
  parameters. It returns \<^verbatim>\<open>COALESCE(NEW, OLD)\<close> and the database it leaves. An IF whose
  condition is NULL takes the branch of false, so each test holds only when both flags
  are not NULL.
\<close>

definition handle_feature_toggle_cascade ::
  "timestamp \<Rightarrow> tg_op \<Rightarrow> cf_row option \<Rightarrow> cf_row option \<Rightarrow> ('c, 'p, 'd, 't) db
     \<Rightarrow> cf_row option \<times> ('c, 'p, 'd, 't) db"
where
  "handle_feature_toggle_cascade now op OLD NEW s =
     (case v_feature_key s OLD NEW of
        None \<Rightarrow> (coalesce NEW OLD, s)
      | Some k \<Rightarrow>
          (case v_company_id OLD NEW of
             None \<Rightarrow> (coalesce NEW OLD, s)
           | Some v \<Rightarrow>
               if op = UPDATE \<and> field cf_is_active OLD = Some True
                    \<and> field cf_is_active NEW = Some False
               then (coalesce NEW OLD, deactivating now v k s)
               else if op = UPDATE \<and> field cf_is_active OLD = Some False
                    \<and> field cf_is_active NEW = Some True
               then (coalesce NEW OLD, reactivating v k s)
               else (coalesce NEW OLD, s)))"

text \<open>
  \<^verbatim>\<open>trigger_feature_toggle_cascade\<close> (lines 177-181): after an UPDATE of a row of
  \<^verbatim>\<open>company_features\<close>, when \<^verbatim>\<open>OLD.is_active IS DISTINCT FROM NEW.is_active\<close>, the
  function runs; the value an AFTER trigger returns is ignored.
\<close>

definition trigger_feature_toggle_cascade ::
  "timestamp \<Rightarrow> cf_row \<Rightarrow> cf_row \<Rightarrow> ('c, 'p, 'd, 't) db \<Rightarrow> ('c, 'p, 'd, 't) db" where
  "trigger_feature_toggle_cascade now OLD NEW s =
     (if cf_is_active OLD \<noteq> cf_is_active NEW
      then snd (handle_feature_toggle_cascade now UPDATE (Some OLD) (Some NEW) s)
      else s)"

section \<open>Observing the database\<close>

text \<open>The database after the first \<open>i\<close> statements of a branch.\<close>

definition state_at :: "('s \<Rightarrow> 's) list \<Rightarrow> nat \<Rightarrow> 's \<Rightarrow> 's" where
  "state_at stmts i s = run (take i stmts) s"

text \<open>
  The \<^verbatim>\<open>company_features\<close> row of feature \<open>f\<close> and company \<open>v\<close> with the flag \<open>b\<close>.
\<close>

definition activation :: "uuid \<Rightarrow> uuid \<Rightarrow> bool \<Rightarrow> cf_row" where
  "activation f v b = \<lparr>cf_feature_id = Some f, cf_company_id = Some v, cf_is_active = Some b\<rparr>"

text \<open>
  Two databases that differ at most in \<^verbatim>\<open>feature_deactivated_items\<close> and in the
  activation columns of the target rows: the same rows in the same order, with every
  column other than \<^verbatim>\<open>is_active\<close> (and \<^verbatim>\<open>is_available\<close> of a driver) the same.
\<close>

definition same_but_activation :: "('c, 'p, 'd, 't) db \<Rightarrow> ('c, 'p, 'd, 't) db \<Rightarrow> bool" where
  "same_but_activation s s' =
     (system_features s' = system_features s \<and>
      map (\<lambda>r. r\<lparr>is_active := None\<rparr>) (coupons s') =
        map (\<lambda>r. r\<lparr>is_active := None\<rparr>) (coupons s) \<and>
      map (\<lambda>r. r\<lparr>is_active := None\<rparr>) (promotions s') =
        map (\<lambda>r. r\<lparr>is_active := None\<rparr>) (promotions s) \<and>
      map (\<lambda>r. r\<lparr>is_active := None, is_available := None\<rparr>) (delivery_drivers s') =
        map (\<lambda>r. r\<lparr>is_active := None, is_available := None\<rparr>) (delivery_drivers s) \<and>
      map (\<lambda>r. r\<lparr>is_active := None\<rparr>) (tables s') =
        map (\<lambda>r. r\<lparr>is_active := None\<rparr>) (tables s))"

text \<open>
  The table name that the branch of a feature key writes into \<^verbatim>\<open>table_name\<close> and
  updates: the literal of each WHEN branch of the two CASE statements.
\<close>

definition target_table :: "string \<Rightarrow> string option" where
  "target_table k =
     (if k = ''coupons'' then Some ''coupons''
      else if k = ''promotions'' then Some ''promotions''
      else if k = ''drivers'' then Some ''delivery_drivers''
      else if k = ''tables'' then Some ''tables''
      else None)"

text \<open>The \<^verbatim>\<open>id\<close>, \<^verbatim>\<open>company_id\<close> and \<^verbatim>\<open>is_active\<close> columns of the target table of a given name.\<close>

definition rows :: "('c, 'p, 'd, 't) db \<Rightarrow> string \<Rightarrow> target_row list" where
  "rows s t =
     (if t = ''coupons'' then map target_row.truncate (coupons s)
      else if t = ''promotions'' then map target_row.truncate (promotions s)
      else if t = ''delivery_drivers'' then map target_row.truncate (delivery_drivers s)
      else if t = ''tables'' then map target_row.truncate (tables s)
      else [])"

text \<open>Two versions of a table of which the second differs from the first only in rows
  whose \<^verbatim>\<open>id\<close> is in \<open>S\<close>.\<close>

definition unchanged_outside ::
  "uuid set \<Rightarrow> 'a target_row_scheme list \<Rightarrow> 'a target_row_scheme list \<Rightarrow> bool" where
  "unchanged_outside S tbl tbl' =
     (length tbl' = length tbl \<and> (\<forall>j<length tbl. row_id (tbl ! j) \<notin> S \<longrightarrow> tbl' ! j = tbl ! j))"


text \<open>The primary keys: no two rows of a target table have the same \<^verbatim>\<open>id\<close>.\<close>

definition pk_ok :: "('c, 'p, 'd, 't) db \<Rightarrow> bool" where
  "pk_ok s = (distinct (map row_id (coupons s)) \<and> distinct (map row_id (promotions s)) \<and>
              distinct (map row_id (delivery_drivers s)) \<and> distinct (map row_id (tables s)))"


text \<open>
  The states the database goes through: at the start \<^verbatim>\<open>feature_deactivated_items\<close> is
  empty (line 8 creates it) and the primary keys hold; then the trigger fires, for any
  update of \<^verbatim>\<open>company_features\<close>, or another writer changes \<^verbatim>\<open>system_features\<close> and
  the target tables in any way the primary keys allow: it may create rows, delete rows
  and write any column. Of the snapshot table another writer can only make rows go away
  (line 10: they are deleted with their company); nothing but the trigger function
  inserts into it (lines 23-27).
\<close>

inductive reachable :: "('c, 'p, 'd, 't) db \<Rightarrow> bool" where
  start: "feature_deactivated_items s = [] \<Longrightarrow> pk_ok s \<Longrightarrow> reachable s"
| fire: "reachable s \<Longrightarrow> reachable (trigger_feature_toggle_cascade now OLD NEW s)"
| other_writer:
    "reachable s \<Longrightarrow>
     feature_deactivated_items s' = filter P (feature_deactivated_items s) \<Longrightarrow>
     pk_ok s' \<Longrightarrow>
     reachable s'"


section \<open>A scenario\<close>

text \<open>
  Company 7 has three active coupons, an inactive one and an active driver who is
  available; company 8 has a coupon of its own. Feature 100 is \<^verbatim>\<open>coupons\<close>, 101 is
  \<^verbatim>\<open>drivers\<close>, and 102 is a feature the trigger function has no branch for.
\<close>

definition scenario :: "(unit, unit, unit, unit) db" where
  "scenario =
     \<lparr>system_features = [(100, Some ''coupons''), (101, Some ''drivers''), (102, Some ''loyalty'')],
      coupons =
        [\<lparr>row_id = 1, row_company_id = Some 7, is_active = Some True\<rparr>,
         \<lparr>row_id = 2, row_company_id = Some 7, is_active = Some True\<rparr>,
         \<lparr>row_id = 3, row_company_id = Some 7, is_active = Some True\<rparr>,
         \<lparr>row_id = 4, row_company_id = Some 7, is_active = Some False\<rparr>,
         \<lparr>row_id = 5, row_company_id = Some 8, is_active = Some True\<rparr>],
      promotions = [],
      delivery_drivers =
        [\<lparr>row_id = 20, row_company_id = Some 7, is_active = Some True,
          is_available = Some True\<rparr>],
      tables = [],
      feature_deactivated_items = []\<rparr>"

text \<open>The scenario after company 7 has had \<^verbatim>\<open>coupons\<close> turned off, at time 50.\<close>

definition coupons_off :: "(unit, unit, unit, unit) db" where
  "coupons_off =
     trigger_feature_toggle_cascade 50 (activation 100 7 True) (activation 100 7 False) scenario"

text \<open>The scenario after company 7 has had \<^verbatim>\<open>drivers\<close> turned off, and then on again.\<close>

definition drivers_off :: "(unit, unit, unit, unit) db" where
  "drivers_off =
     trigger_feature_toggle_cascade 50 (activation 101 7 True) (activation 101 7 False) scenario"

definition drivers_on_again :: "(unit, unit, unit, unit) db" where
  "drivers_on_again =
     trigger_feature_toggle_cascade 60 (activation 101 7 False) (activation 101 7 True) drivers_off"

text \<open>
  The scenario with \<^verbatim>\<open>coupons\<close> off, after somebody else has activated coupon 4 of
  company 7.
\<close>

definition coupon4_activated :: "(unit, unit, unit, unit) db" where
  "coupon4_activated =
     coupons_off\<lparr>coupons :=
       (coupons coupons_off)[3 := \<lparr>row_id = 4, row_company_id = Some 7, is_active = Some True\<rparr>]\<rparr>"



section \<open>The branches, statement by statement\<close>

lemma run_Nil: "run [] s = s" by (simp add: run_def)
lemma run_two: "run [f, g] s = g (f s)" by (simp add: run_def)

lemma deactivating_coupons:
  "deactivating now v ''coupons'' s =
     s\<lparr>feature_deactivated_items :=
          snapshot_active now v ''coupons'' ''coupons'' (coupons s) (feature_deactivated_items s),
       coupons := deactivate_active v (coupons s)\<rparr>"
  by (simp add: deactivating_def deactivating_stmts_def run_two)

lemma deactivating_promotions:
  "deactivating now v ''promotions'' s =
     s\<lparr>feature_deactivated_items :=
          snapshot_active now v ''promotions'' ''promotions'' (promotions s)
            (feature_deactivated_items s),
       promotions := deactivate_active v (promotions s)\<rparr>"
  by (simp add: deactivating_def deactivating_stmts_def run_two)

lemma deactivating_drivers:
  "deactivating now v ''drivers'' s =
     s\<lparr>feature_deactivated_items :=
          snapshot_active now v ''drivers'' ''delivery_drivers'' (delivery_drivers s)
            (feature_deactivated_items s),
       delivery_drivers := deactivate_active_drivers v (delivery_drivers s)\<rparr>"
  by (simp add: deactivating_def deactivating_stmts_def run_two)

lemma deactivating_tables:
  "deactivating now v ''tables'' s =
     s\<lparr>feature_deactivated_items :=
          snapshot_active now v ''tables'' ''tables'' (tables s) (feature_deactivated_items s),
       tables := deactivate_active v (tables s)\<rparr>"
  by (simp add: deactivating_def deactivating_stmts_def run_two)

lemma deactivating_other:
  "target_table k = None \<Longrightarrow> deactivating now v k s = s"
  by (simp add: deactivating_def deactivating_stmts_def run_Nil target_table_def split: if_splits)

lemma reactivating_coupons:
  "reactivating v ''coupons'' s =
     s\<lparr>coupons :=
          restore_ids (snapshot_ids v ''coupons'' ''coupons'' (feature_deactivated_items s))
            (coupons s),
       feature_deactivated_items :=
          clear_snapshot v ''coupons'' ''coupons'' (feature_deactivated_items s)\<rparr>"
  by (simp add: reactivating_def reactivating_stmts_def run_two)

lemma reactivating_promotions:
  "reactivating v ''promotions'' s =
     s\<lparr>promotions :=
          restore_ids (snapshot_ids v ''promotions'' ''promotions'' (feature_deactivated_items s))
            (promotions s),
       feature_deactivated_items :=
          clear_snapshot v ''promotions'' ''promotions'' (feature_deactivated_items s)\<rparr>"
  by (simp add: reactivating_def reactivating_stmts_def run_two)

lemma reactivating_drivers:
  "reactivating v ''drivers'' s =
     s\<lparr>delivery_drivers :=
          restore_ids (snapshot_ids v ''drivers'' ''delivery_drivers'' (feature_deactivated_items s))
            (delivery_drivers s),
       feature_deactivated_items :=
          clear_snapshot v ''drivers'' ''delivery_drivers'' (feature_deactivated_items s)\<rparr>"
  by (simp add: reactivating_def reactivating_stmts_def run_two)

lemma reactivating_tables:
  "reactivating v ''tables'' s =
     s\<lparr>tables :=
          restore_ids (snapshot_ids v ''tables'' ''tables'' (feature_deactivated_items s))
            (tables s),
       feature_deactivated_items :=
          clear_snapshot v ''tables'' ''tables'' (feature_deactivated_items s)\<rparr>"
  by (simp add: reactivating_def reactivating_stmts_def run_two)

lemma reactivating_other:
  "target_table k = None \<Longrightarrow> reactivating v k s = s"
  by (simp add: reactivating_def reactivating_stmts_def run_Nil target_table_def split: if_splits)

lemma target_table_cases:
  "k = ''coupons'' \<or> k = ''promotions'' \<or> k = ''drivers'' \<or> k = ''tables'' \<or> target_table k = None"
  by (simp add: target_table_def)

lemmas deactivating_simps =
  deactivating_coupons deactivating_promotions deactivating_drivers deactivating_tables
lemmas reactivating_simps =
  reactivating_coupons reactivating_promotions reactivating_drivers reactivating_tables

lemma trigger_unfold:
  "trigger_feature_toggle_cascade now OLD NEW s =
     (case v_feature_key s (Some OLD) (Some NEW) of
        None \<Rightarrow> s
      | Some k \<Rightarrow>
          (case v_company_id (Some OLD) (Some NEW) of
             None \<Rightarrow> s
           | Some v \<Rightarrow>
               if cf_is_active OLD = Some True \<and> cf_is_active NEW = Some False
               then deactivating now v k s
               else if cf_is_active OLD = Some False \<and> cf_is_active NEW = Some True
               then reactivating v k s
               else s))"
  by (simp add: trigger_feature_toggle_cascade_def handle_feature_toggle_cascade_def
      field_def split: option.splits)

lemma trigger_cases:
  "trigger_feature_toggle_cascade now OLD NEW s = s \<or>
   (\<exists>v k. v_company_id (Some OLD) (Some NEW) = Some v \<and>
      v_feature_key s (Some OLD) (Some NEW) = Some k \<and>
      cf_is_active OLD = Some True \<and> cf_is_active NEW = Some False \<and>
      trigger_feature_toggle_cascade now OLD NEW s = deactivating now v k s) \<or>
   (\<exists>v k. v_company_id (Some OLD) (Some NEW) = Some v \<and>
      v_feature_key s (Some OLD) (Some NEW) = Some k \<and>
      cf_is_active OLD = Some False \<and> cf_is_active NEW = Some True \<and>
      trigger_feature_toggle_cascade now OLD NEW s = reactivating v k s)"
  by (simp add: trigger_unfold split: option.splits)

lemma erase_deactivate_active:
  "map (\<lambda>r. r\<lparr>is_active := None\<rparr>) (deactivate_active v tbl) = map (\<lambda>r. r\<lparr>is_active := None\<rparr>) tbl"
  by (simp add: deactivate_active_def)

lemma erase_deactivate_active_drivers:
  "map (\<lambda>r. r\<lparr>is_active := None, is_available := None\<rparr>) (deactivate_active_drivers v tbl) =
   map (\<lambda>r. r\<lparr>is_active := None, is_available := None\<rparr>) tbl"
  by (simp add: deactivate_active_drivers_def)

lemma erase_restore_ids:
  "map (\<lambda>r. r\<lparr>is_active := None\<rparr>) (restore_ids ids tbl) = map (\<lambda>r. r\<lparr>is_active := None\<rparr>) tbl"
  by (simp add: restore_ids_def)

lemma erase_restore_ids_drivers:
  "map (\<lambda>r. r\<lparr>is_active := None, is_available := None\<rparr>) (restore_ids ids tbl) =
   map (\<lambda>r. r\<lparr>is_active := None, is_available := None\<rparr>) tbl"
  by (simp add: restore_ids_def)

lemma same_but_activation_refl: "same_but_activation s s"
  by (simp add: same_but_activation_def)

lemma same_but_activation_deactivating: "same_but_activation s (deactivating now v k s)"
  using target_table_cases [of k]
  by (auto simp: same_but_activation_def deactivating_simps deactivating_other
      erase_deactivate_active erase_deactivate_active_drivers)

lemma same_but_activation_reactivating: "same_but_activation s (reactivating v k s)"
  using target_table_cases [of k]
  by (auto simp: same_but_activation_def reactivating_simps reactivating_other
      erase_restore_ids erase_restore_ids_drivers)

lemma handle_returns:
  "fst (handle_feature_toggle_cascade now op OLD NEW s) = coalesce NEW OLD"
  by (simp add: handle_feature_toggle_cascade_def split: option.splits)

lemma handle_update:
  "cf_is_active OLD \<noteq> cf_is_active NEW \<Longrightarrow>
   snd (handle_feature_toggle_cascade now UPDATE (Some OLD) (Some NEW) s) =
     trigger_feature_toggle_cascade now OLD NEW s"
  by (simp add: trigger_feature_toggle_cascade_def)

lemma handle_same_flag:
  "cf_is_active OLD = cf_is_active NEW \<Longrightarrow>
   snd (handle_feature_toggle_cascade now op (Some OLD) (Some NEW) s) = s"
  by (auto simp: handle_feature_toggle_cascade_def field_def split: option.splits)

lemma no_active_left:
  "filter (\<lambda>r. row_company_id r = Some v \<and> is_active r = Some True) (deactivate_active v tbl) = []"
  by (induction tbl) (auto simp: deactivate_active_def)

lemma no_active_left_drivers:
  "filter (\<lambda>r. row_company_id r = Some v \<and> is_active r = Some True)
     (deactivate_active_drivers v tbl) = []"
  by (induction tbl) (auto simp: deactivate_active_drivers_def)

lemma deactivate_active_idem:
  "deactivate_active v (deactivate_active v tbl) = deactivate_active v tbl"
  by (induction tbl) (auto simp: deactivate_active_def)

lemma deactivate_active_drivers_idem:
  "deactivate_active_drivers v (deactivate_active_drivers v tbl) = deactivate_active_drivers v tbl"
  by (induction tbl) (auto simp: deactivate_active_drivers_def)

lemma snapshot_active_after_deactivate:
  "snapshot_active now v k t (deactivate_active v tbl) fdi = fdi"
  by (simp add: snapshot_active_def no_active_left)

lemma snapshot_active_after_deactivate_drivers:
  "snapshot_active now v k t (deactivate_active_drivers v tbl) fdi = fdi"
  by (simp add: snapshot_active_def no_active_left_drivers)

lemma deactivating_idem:
  "deactivating now' v k (deactivating now v k s) = deactivating now v k s"
  using target_table_cases [of k]
  by (auto simp: deactivating_simps deactivating_other deactivate_active_idem
      deactivate_active_drivers_idem snapshot_active_after_deactivate
      snapshot_active_after_deactivate_drivers)

lemma snapshot_ids_clear: "snapshot_ids v k t (clear_snapshot v k t fdi) = []"
  by (induction fdi) (auto simp: snapshot_ids_def clear_snapshot_def)

lemma clear_snapshot_idem: "clear_snapshot v k t (clear_snapshot v k t fdi) = clear_snapshot v k t fdi"
  by (simp add: clear_snapshot_def)

lemma restore_ids_Nil: "restore_ids [] tbl = tbl"
  by (induction tbl) (auto simp: restore_ids_def)

lemma reactivating_idem:
  "reactivating v k (reactivating v k s) = reactivating v k s"
  using target_table_cases [of k]
  by (auto simp: reactivating_simps reactivating_other snapshot_ids_clear clear_snapshot_idem
      restore_ids_Nil)

lemma system_features_deactivating: "system_features (deactivating now v k s) = system_features s"
  using same_but_activation_deactivating [of s now v k] by (simp add: same_but_activation_def)

lemma system_features_reactivating: "system_features (reactivating v k s) = system_features s"
  using same_but_activation_reactivating [of s v k] by (simp add: same_but_activation_def)

lemma v_feature_key_deactivating:
  "v_feature_key (deactivating now v k s) OLD NEW = v_feature_key s OLD NEW"
  by (simp add: v_feature_key_def system_features_deactivating)

lemma v_feature_key_reactivating:
  "v_feature_key (reactivating v k s) OLD NEW = v_feature_key s OLD NEW"
  by (simp add: v_feature_key_def system_features_reactivating)

lemma trigger_idem:
  "trigger_feature_toggle_cascade now' OLD NEW (trigger_feature_toggle_cascade now OLD NEW s) =
   trigger_feature_toggle_cascade now OLD NEW s"
  by (simp add: trigger_unfold v_feature_key_deactivating v_feature_key_reactivating
      deactivating_idem reactivating_idem split: option.splits)

section \<open>Properties of the cascade\<close>

text \<open>
  C7. A write to a \<^verbatim>\<open>company_features\<close> row that leaves \<^verbatim>\<open>is_active\<close> as it was (true to
  true, false to false, NULL to NULL) does not fire the trigger, whose WHEN clause asks
  for a distinct value; the database stays as it is. The function itself, were it called
  with such a pair of rows, changes nothing either and returns the new row.
\<close>

theorem no_op_transition_guard:
  "cf_is_active OLD = cf_is_active NEW \<Longrightarrow>
     trigger_feature_toggle_cascade now OLD NEW s = s \<and>
     handle_feature_toggle_cascade now op (Some OLD) (Some NEW) s = (Some NEW, s)"
proof -
  assume same: "cf_is_active OLD = cf_is_active NEW"
  have "trigger_feature_toggle_cascade now OLD NEW s = s"
    using same by (simp add: trigger_feature_toggle_cascade_def)
  moreover have "fst (handle_feature_toggle_cascade now op (Some OLD) (Some NEW) s) = Some NEW"
    by (simp add: handle_returns coalesce_def)
  moreover have "snd (handle_feature_toggle_cascade now op (Some OLD) (Some NEW) s) = s"
    using same by (rule handle_same_flag)
  ultimately show ?thesis by (simp add: prod_eq_iff)
qed

theorem no_op_transition_guard_witness:
  "cf_is_active (activation 100 7 True) = cf_is_active (activation 100 7 True) \<and>
   trigger_feature_toggle_cascade 50 (activation 100 7 True) (activation 100 7 True) coupons_off
     = coupons_off"
  using no_op_transition_guard [of "activation 100 7 True" "activation 100 7 True" 50 coupons_off]
  by simp

text \<open>
  C8. For a feature key other than the four the CASE statements name (also when no key
  is found at all), the function returns the new row as for any other update, and
  neither the deactivation nor the reactivation branch changes the database: no row of
  \<^verbatim>\<open>feature_deactivated_items\<close> is inserted or deleted, no target table is written.
\<close>

theorem unknown_feature_key:
  "v_feature_key s (Some OLD) (Some NEW) = key \<Longrightarrow>
   key \<notin> {Some ''coupons'', Some ''promotions'', Some ''drivers'', Some ''tables''} \<Longrightarrow>
     handle_feature_toggle_cascade now UPDATE (Some OLD) (Some NEW) s = (Some NEW, s) \<and>
     trigger_feature_toggle_cascade now OLD NEW s = s \<and>
     (\<forall>v k. key = Some k \<longrightarrow> deactivating now v k s = s \<and> reactivating v k s = s)"
proof -
  assume key: "v_feature_key s (Some OLD) (Some NEW) = key"
    and unknown: "key \<notin> {Some ''coupons'', Some ''promotions'', Some ''drivers'', Some ''tables''}"
  have none: "target_table k = None" if "key = Some k" for k
    using unknown that by (simp add: target_table_def)
  have branches: "deactivating now v k s = s \<and> reactivating v k s = s" if "key = Some k" for v k
    using none [OF that] by (simp add: deactivating_other reactivating_other)
  have trig: "trigger_feature_toggle_cascade now OLD NEW s = s"
    using key branches by (simp add: trigger_unfold split: option.splits)
  have "snd (handle_feature_toggle_cascade now UPDATE (Some OLD) (Some NEW) s) = s"
  proof (cases "cf_is_active OLD = cf_is_active NEW")
    case True
    then show ?thesis by (rule handle_same_flag)
  next
    case False
    then show ?thesis using trig by (simp add: handle_update)
  qed
  moreover have
    "fst (handle_feature_toggle_cascade now UPDATE (Some OLD) (Some NEW) s) = Some NEW"
    by (simp add: handle_returns coalesce_def)
  ultimately have "handle_feature_toggle_cascade now UPDATE (Some OLD) (Some NEW) s = (Some NEW, s)"
    by (simp add: prod_eq_iff)
  with trig branches show ?thesis by blast
qed

theorem unknown_feature_key_witness:
  "v_feature_key scenario (Some (activation 102 7 True)) (Some (activation 102 7 False))
     = Some ''loyalty'' \<and>
   Some ''loyalty'' \<notin> {Some ''coupons'', Some ''promotions'', Some ''drivers'', Some ''tables''} \<and>
   handle_feature_toggle_cascade 50 UPDATE (Some (activation 102 7 True))
     (Some (activation 102 7 False)) scenario = (Some (activation 102 7 False), scenario) \<and>
   trigger_feature_toggle_cascade 50 (activation 102 7 True) (activation 102 7 False) scenario
     = scenario"
proof -
  have k: "v_feature_key scenario (Some (activation 102 7 True)) (Some (activation 102 7 False))
     = Some ''loyalty''"
    by (simp add: v_feature_key_def scenario_def activation_def select_key_def coalesce_def
        field_def)
  have n: "Some ''loyalty'' \<notin>
      {Some ''coupons'', Some ''promotions'', Some ''drivers'', Some ''tables''}"
    by simp
  from unknown_feature_key [OF k n, of 50] k n show ?thesis by blast
qed

text \<open>
  C9. Neither branch inserts a row into a target table or deletes one, and of the rows
  it touches it changes only \<^verbatim>\<open>is_active\<close> (and \<^verbatim>\<open>is_available\<close> of a driver): with these
  columns blanked out, every target table is the same list of rows before and after, and
  \<^verbatim>\<open>system_features\<close> is the same.
\<close>

theorem lifecycle_frame:
  "same_but_activation s (deactivating now v k s) \<and>
   same_but_activation s (reactivating v k s) \<and>
   same_but_activation s (trigger_feature_toggle_cascade now OLD NEW s)"
  using trigger_cases [of now OLD NEW s]
  by (auto simp: same_but_activation_deactivating same_but_activation_reactivating
      same_but_activation_refl)

text \<open>
  C5. Running the deactivation branch a second time, even at a later time, gives the
  database the first run gave; the same holds for the reactivation branch, and for the
  trigger as a whole fired twice on the same pair of rows.
\<close>

theorem half_cycle_idempotent:
  "deactivating now' v k (deactivating now v k s) = deactivating now v k s \<and>
   reactivating v k (reactivating v k s) = reactivating v k s \<and>
   trigger_feature_toggle_cascade now' OLD NEW (trigger_feature_toggle_cascade now OLD NEW s) =
     trigger_feature_toggle_cascade now OLD NEW s"
  by (simp add: deactivating_idem reactivating_idem trigger_idem)

subsection \<open>The trigger columns of the target tables\<close>

lemma truncate_simps:
  "row_id (target_row.truncate r) = row_id r"
  "row_company_id (target_row.truncate r) = row_company_id r"
  "is_active (target_row.truncate r) = is_active r"
  "target_row.truncate (r\<lparr>is_active := b\<rparr>) = (target_row.truncate r)\<lparr>is_active := b\<rparr>"
  by (simp_all add: target_row.truncate_def)

lemma truncate_is_available:
  "target_row.truncate (r\<lparr>is_available := b\<rparr>) = target_row.truncate r"
  by (simp add: target_row.truncate_def)

lemma truncate_deactivate_active:
  "map target_row.truncate (deactivate_active v tbl) =
   deactivate_active v (map target_row.truncate tbl)"
  by (simp add: deactivate_active_def truncate_simps)

lemma truncate_deactivate_active_drivers:
  "map target_row.truncate (deactivate_active_drivers v tbl) =
   deactivate_active v (map target_row.truncate tbl)"
  by (simp add: deactivate_active_def deactivate_active_drivers_def truncate_simps
      truncate_is_available)

lemma truncate_restore_ids:
  "map target_row.truncate (restore_ids ids tbl) = restore_ids ids (map target_row.truncate tbl)"
  by (simp add: restore_ids_def truncate_simps)

lemma snapshot_active_truncate:
  "snapshot_active now v k t (map target_row.truncate tbl) fdi = snapshot_active now v k t tbl fdi"
  by (simp add: snapshot_active_def filter_map comp_def truncate_simps)

lemma rows_deactivating:
  "rows (deactivating now v k s) t =
     (if target_table k = Some t then deactivate_active v (rows s t) else rows s t)"
  using target_table_cases [of k]
  by (auto simp: deactivating_simps deactivating_other rows_def target_table_def
      truncate_deactivate_active truncate_deactivate_active_drivers)

lemma rows_reactivating:
  "rows (reactivating v k s) t =
     (if target_table k = Some t
      then restore_ids (snapshot_ids v k t (feature_deactivated_items s)) (rows s t)
      else rows s t)"
  using target_table_cases [of k]
  by (auto simp: reactivating_simps reactivating_other rows_def target_table_def
      truncate_restore_ids)

lemma fdi_deactivating:
  "feature_deactivated_items (deactivating now v k s) =
     (case target_table k of
        None \<Rightarrow> feature_deactivated_items s
      | Some t \<Rightarrow> snapshot_active now v k t (rows s t) (feature_deactivated_items s))"
  using target_table_cases [of k]
  by (auto simp: deactivating_simps deactivating_other rows_def target_table_def
      snapshot_active_truncate)

lemma fdi_reactivating:
  "feature_deactivated_items (reactivating v k s) =
     (case target_table k of
        None \<Rightarrow> feature_deactivated_items s
      | Some t \<Rightarrow> clear_snapshot v k t (feature_deactivated_items s))"
  using target_table_cases [of k]
  by (auto simp: reactivating_simps reactivating_other target_table_def)

subsection \<open>The conflict clause\<close>

lemma insert_keys:
  "conflict_key ` set (insert_on_conflict_do_nothing xs fdi) =
   conflict_key ` set fdi \<union> conflict_key ` set xs"
  by (induction xs arbitrary: fdi) auto


lemma insert_distinct:
  "distinct (map conflict_key fdi) \<Longrightarrow>
   distinct (map conflict_key (insert_on_conflict_do_nothing xs fdi))"
  by (induction xs arbitrary: fdi) auto

lemma insert_present:
  "conflict_key ` set xs \<subseteq> conflict_key ` set fdi \<Longrightarrow> insert_on_conflict_do_nothing xs fdi = fdi"
  by (induction xs arbitrary: fdi) auto

lemma insert_twice:
  "conflict_key ` set ys \<subseteq> conflict_key ` set xs \<Longrightarrow>
   insert_on_conflict_do_nothing ys (insert_on_conflict_do_nothing xs fdi) =
   insert_on_conflict_do_nothing xs fdi"
  by (rule insert_present) (auto simp: insert_keys)

lemma snapshot_active_twice:
  "snapshot_active now' v k t tbl (snapshot_active now v k t tbl fdi) =
   snapshot_active now v k t tbl fdi"
  unfolding snapshot_active_def
  by (rule insert_twice) (auto simp: conflict_key_def image_iff)

lemma one_per_key:
  "distinct (map f xs) \<Longrightarrow> a \<in> f ` set xs \<Longrightarrow> length (filter (\<lambda>y. f y = a) xs) = 1"
proof (induction xs)
  case Nil
  then show ?case by simp
next
  case (Cons x xs)
  show ?case
  proof (cases "f x = a")
    case True
    with Cons.prems have "\<forall>y \<in> set xs. f y \<noteq> a"
      by (auto simp: image_iff)
    then have "filter (\<lambda>y. f y = a) xs = []"
      by (simp add: filter_empty_conv)
    with True show ?thesis by simp
  next
    case False
    with Cons show ?thesis by auto
  qed
qed

lemma clear_snapshot_distinct:
  "distinct (map conflict_key fdi) \<Longrightarrow> distinct (map conflict_key (clear_snapshot v k t fdi))"
  by (simp add: clear_snapshot_def distinct_map_filter)

lemma deactivating_distinct:
  "distinct (map conflict_key (feature_deactivated_items s)) \<Longrightarrow>
   distinct (map conflict_key (feature_deactivated_items (deactivating now v k s)))"
  by (simp add: fdi_deactivating snapshot_active_def insert_distinct split: option.splits)

lemma reactivating_distinct:
  "distinct (map conflict_key (feature_deactivated_items s)) \<Longrightarrow>
   distinct (map conflict_key (feature_deactivated_items (reactivating v k s)))"
  by (simp add: fdi_reactivating clear_snapshot_distinct split: option.splits)

lemma trigger_distinct:
  "distinct (map conflict_key (feature_deactivated_items s)) \<Longrightarrow>
   distinct (map conflict_key
     (feature_deactivated_items (trigger_feature_toggle_cascade now OLD NEW s)))"
  by (simp add: trigger_unfold deactivating_distinct reactivating_distinct split: option.splits)

lemma reachable_distinct:
  "reachable s \<Longrightarrow> distinct (map conflict_key (feature_deactivated_items s))"
  by (induction rule: reachable.induct) (simp_all add: trigger_distinct distinct_map_filter)

text \<open>
  C3. In every state the database reaches, \<^verbatim>\<open>feature_deactivated_items\<close> holds at most
  one row for each (company, feature key, table name, item). Inserting a row whose key
  is there already leaves the table as it is, the old row with its old \<^verbatim>\<open>deactivated_at\<close>
  included, and is no error; recording one row twice leaves exactly one row of that
  key, and so does running a whole snapshot INSERT twice.
\<close>

theorem snapshot_unique_idempotent_insert:
  "reachable s \<Longrightarrow>
     distinct (map conflict_key (feature_deactivated_items s)) \<and>
     (\<forall>x. conflict_key x \<in> conflict_key ` set (feature_deactivated_items s) \<longrightarrow>
          insert_on_conflict_do_nothing [x] (feature_deactivated_items s) =
            feature_deactivated_items s) \<and>
     (\<forall>x x'. conflict_key x' = conflict_key x \<longrightarrow>
          insert_on_conflict_do_nothing [x']
              (insert_on_conflict_do_nothing [x] (feature_deactivated_items s)) =
            insert_on_conflict_do_nothing [x] (feature_deactivated_items s) \<and>
          length (filter (\<lambda>y. conflict_key y = conflict_key x)
              (insert_on_conflict_do_nothing [x] (feature_deactivated_items s))) = 1) \<and>
     (\<forall>now now' v k t tbl.
          snapshot_active now' v k t (tbl :: 'a target_row_scheme list)
              (snapshot_active now v k t tbl (feature_deactivated_items s)) =
            snapshot_active now v k t tbl (feature_deactivated_items s))"
proof -
  assume r: "reachable s"
  let ?fdi = "feature_deactivated_items s"
  have d: "distinct (map conflict_key ?fdi)"
    using r by (rule reachable_distinct)
  have p: "insert_on_conflict_do_nothing [x] ?fdi = ?fdi"
    if "conflict_key x \<in> conflict_key ` set ?fdi" for x
    using that by (simp add: insert_present)
  have t: "insert_on_conflict_do_nothing [x'] (insert_on_conflict_do_nothing [x] ?fdi) =
             insert_on_conflict_do_nothing [x] ?fdi"
    if "conflict_key x' = conflict_key x" for x x'
    using that by (simp add: insert_twice)
  have one: "length (filter (\<lambda>y. conflict_key y = conflict_key x)
              (insert_on_conflict_do_nothing [x] ?fdi)) = 1" for x
  proof (rule one_per_key)
    show "distinct (map conflict_key (insert_on_conflict_do_nothing [x] ?fdi))"
      using d by (rule insert_distinct)
    show "conflict_key x \<in> conflict_key ` set (insert_on_conflict_do_nothing [x] ?fdi)"
      by (simp add: insert_keys)
  qed
  from d p t one show ?thesis
    by (simp add: snapshot_active_twice)
qed

lemma reachable_coupons_off: "reachable coupons_off"
  unfolding coupons_off_def
  by (rule reachable.fire, rule reachable.start) (simp_all add: scenario_def pk_ok_def)

lemma coupons_off_eval:
  "coupons_off = scenario
     \<lparr>coupons :=
        [\<lparr>row_id = 1, row_company_id = Some 7, is_active = Some False\<rparr>,
         \<lparr>row_id = 2, row_company_id = Some 7, is_active = Some False\<rparr>,
         \<lparr>row_id = 3, row_company_id = Some 7, is_active = Some False\<rparr>,
         \<lparr>row_id = 4, row_company_id = Some 7, is_active = Some False\<rparr>,
         \<lparr>row_id = 5, row_company_id = Some 8, is_active = Some True\<rparr>],
      feature_deactivated_items :=
        [\<lparr>company_id = 7, feature_key = ''coupons'', table_name = ''coupons'', item_id = 1,
          deactivated_at = Some 50\<rparr>,
         \<lparr>company_id = 7, feature_key = ''coupons'', table_name = ''coupons'', item_id = 2,
          deactivated_at = Some 50\<rparr>,
         \<lparr>company_id = 7, feature_key = ''coupons'', table_name = ''coupons'', item_id = 3,
          deactivated_at = Some 50\<rparr>]\<rparr>"
  by (simp add: coupons_off_def trigger_unfold v_feature_key_def v_company_id_def
      select_key_def coalesce_def field_def activation_def scenario_def deactivating_coupons
      snapshot_active_def deactivate_active_def conflict_key_def)

theorem snapshot_unique_idempotent_insert_witness:
  "reachable coupons_off \<and>
   distinct (map conflict_key (feature_deactivated_items coupons_off)) \<and>
   insert_on_conflict_do_nothing
     [\<lparr>company_id = 7, feature_key = ''coupons'', table_name = ''coupons'', item_id = 2,
       deactivated_at = Some 99\<rparr>] (feature_deactivated_items coupons_off) =
     feature_deactivated_items coupons_off"
proof -
  have k: "conflict_key \<lparr>company_id = 7, feature_key = ''coupons'', table_name = ''coupons'',
         item_id = 2, deactivated_at = Some 99\<rparr>
       \<in> conflict_key ` set (feature_deactivated_items coupons_off)"
    by (simp add: coupons_off_eval conflict_key_def)
  from snapshot_unique_idempotent_insert [OF reachable_coupons_off] k reachable_coupons_off
  show ?thesis by blast
qed

subsection \<open>The order of the statements\<close>

lemma state_at_0: "state_at stmts 0 s = s"
  by (simp add: state_at_def run_Nil)

lemma deactivating_stmts_length:
  "length (deactivating_stmts now v k) = (if target_table k = None then 0 else 2)"
  by (simp add: deactivating_stmts_def target_table_def)

lemma rows_after_insert:
  "rows (state_at (deactivating_stmts now v k) (Suc 0) s) t = rows s t"
  by (simp add: state_at_def deactivating_stmts_def run_def rows_def)

lemma fdi_after_insert:
  "target_table k = Some t \<Longrightarrow>
   feature_deactivated_items (state_at (deactivating_stmts now v k) (Suc 0) s) =
     snapshot_active now v k t (rows s t) (feature_deactivated_items s)"
  by (auto simp: state_at_def deactivating_stmts_def run_def rows_def target_table_def
      snapshot_active_truncate split: if_splits)

lemma state_after_update:
  "state_at (deactivating_stmts now v k) (Suc (Suc 0)) s = deactivating now v k s"
  by (simp add: state_at_def deactivating_def deactivating_stmts_length)

lemma snapshot_active_keys:
  "conflict_key ` set (snapshot_active now v k t tbl fdi) =
   conflict_key ` set fdi \<union>
   (\<lambda>r. (v, k, t, row_id r)) `
     {r \<in> set tbl. row_company_id r = Some v \<and> is_active r = Some True}"
proof -
  have "conflict_key ` (\<lambda>r. \<lparr>company_id = v, feature_key = k, table_name = t,
            item_id = row_id r, deactivated_at = Some now\<rparr>) ` A =
        (\<lambda>r. (v, k, t, row_id r)) ` A" for A :: "'a target_row_scheme set"
    by (simp add: image_image conflict_key_def)
  then show ?thesis
    by (simp add: snapshot_active_def insert_keys)
qed

lemma snapshot_active_covers:
  "r \<in> set tbl \<Longrightarrow> row_company_id r = Some v \<Longrightarrow> is_active r = Some True \<Longrightarrow>
   (v, k, t, row_id r) \<in> conflict_key ` set (snapshot_active now v k t tbl fdi)"
  by (auto simp: snapshot_active_keys)

lemma deactivate_active_nth:
  "j < length tbl \<Longrightarrow>
   deactivate_active v tbl ! j =
     (if row_company_id (tbl ! j) = Some v \<and> is_active (tbl ! j) = Some True
      then (tbl ! j)\<lparr>is_active := Some False\<rparr> else tbl ! j)"
  by (simp add: deactivate_active_def)

lemma restore_ids_nth:
  "j < length tbl \<Longrightarrow>
   restore_ids ids tbl ! j =
     (if row_id (tbl ! j) \<in> set ids then (tbl ! j)\<lparr>is_active := Some True\<rparr> else tbl ! j)"
  by (simp add: restore_ids_def)

lemma length_deactivate_active: "length (deactivate_active v tbl) = length tbl"
  by (simp add: deactivate_active_def)

lemma length_restore_ids: "length (restore_ids ids tbl) = length tbl"
  by (simp add: restore_ids_def)

lemma snapshot_first:
  assumes i: "i < length (deactivating_stmts now v k ::
                (('c, 'p, 'd, 't) db \<Rightarrow> ('c, 'p, 'd, 't) db) list)"
    and j: "j < length (rows (state_at (deactivating_stmts now v k) i s) t)"
    and before: "is_active (rows (state_at (deactivating_stmts now v k) i s) t ! j) = Some True"
    and after:
      "is_active (rows (state_at (deactivating_stmts now v k) (Suc i) s) t ! j) \<noteq> Some True"
  shows "(v, k, t, row_id (rows (state_at (deactivating_stmts now v k) i
               (s :: ('c, 'p, 'd, 't) db)) t ! j))
          \<in> conflict_key ` set (feature_deactivated_items
               (state_at (deactivating_stmts now v k) i s))"
proof -
  from i obtain t0 where t0: "target_table k = Some t0" and i2: "i < 2"
    by (auto simp: deactivating_stmts_length split: if_splits)
  from i2 have "i = 0 \<or> i = Suc 0" by auto
  then show ?thesis
  proof
    assume "i = 0"
    with before after show ?thesis
      by (simp add: state_at_0 rows_after_insert)
  next
    assume i1: "i = Suc 0"
    from j i1 have j': "j < length (rows s t)"
      by (simp add: rows_after_insert)
    from before i1 have act: "is_active (rows s t ! j) = Some True"
      by (simp add: rows_after_insert)
    from after i1 have "is_active (rows (deactivating now v k s) t ! j) \<noteq> Some True"
      by (simp add: state_after_update)
    with act j' t0 have tt: "t0 = t" and own: "row_company_id (rows s t ! j) = Some v"
      by (auto simp: rows_deactivating deactivate_active_nth split: if_splits)
    from j' have "rows s t ! j \<in> set (rows s t)" by simp
    from snapshot_active_covers [OF this own act]
    show ?thesis using i1 t0 tt by (simp add: rows_after_insert fdi_after_insert)
  qed
qed

lemma no_snapshot_left:
  "target_table k = Some t \<Longrightarrow>
   snapshot_ids v k t (feature_deactivated_items (reactivating v k s)) = []"
  by (simp add: fdi_reactivating snapshot_ids_clear)

text \<open>
  C6. Whenever a statement of the deactivation branch takes a target row from active
  to not active, the database that statement starts from already holds the snapshot row
  of that record for the company, feature key and table; the statements run to the end
  are the branch. After the reactivation branch no snapshot row is left for the company,
  the feature key and its table.
\<close>

theorem snapshot_before_deactivate:
  "(\<forall>i t j.
      i < length (deactivating_stmts now v k ::
            (('c, 'p, 'd, 't) db \<Rightarrow> ('c, 'p, 'd, 't) db) list) \<longrightarrow>
      j < length (rows (state_at (deactivating_stmts now v k) i s) t) \<longrightarrow>
      is_active (rows (state_at (deactivating_stmts now v k) i s) t ! j) = Some True \<longrightarrow>
      is_active (rows (state_at (deactivating_stmts now v k) (Suc i) s) t ! j) \<noteq> Some True \<longrightarrow>
      (v, k, t, row_id (rows (state_at (deactivating_stmts now v k) i
           (s :: ('c, 'p, 'd, 't) db)) t ! j))
        \<in> conflict_key ` set (feature_deactivated_items
             (state_at (deactivating_stmts now v k) i s))) \<and>
   state_at (deactivating_stmts now v k)
     (length (deactivating_stmts now v k ::
            (('c, 'p, 'd, 't) db \<Rightarrow> ('c, 'p, 'd, 't) db) list)) s = deactivating now v k s \<and>
   (\<forall>t. target_table k = Some t \<longrightarrow>
      snapshot_ids v k t (feature_deactivated_items (reactivating v k s)) = [])"
proof -
  have "state_at (deactivating_stmts now v k)
     (length (deactivating_stmts now v k ::
            (('c, 'p, 'd, 't) db \<Rightarrow> ('c, 'p, 'd, 't) db) list)) s = deactivating now v k s"
    by (simp add: state_at_def deactivating_def)
  then show ?thesis
    using snapshot_first [of _ now v k _ s] no_snapshot_left [of k _ v s] by blast
qed

theorem snapshot_before_deactivate_witness:
  "Suc 0 < length (deactivating_stmts 50 7 ''coupons'' ::
       ((unit, unit, unit, unit) db \<Rightarrow> (unit, unit, unit, unit) db) list) \<and>
   0 < length (rows (state_at (deactivating_stmts 50 7 ''coupons'') (Suc 0) scenario) ''coupons'') \<and>
   is_active (rows (state_at (deactivating_stmts 50 7 ''coupons'') (Suc 0) scenario)
      ''coupons'' ! 0) = Some True \<and>
   is_active (rows (state_at (deactivating_stmts 50 7 ''coupons'') (Suc (Suc 0)) scenario)
      ''coupons'' ! 0) \<noteq> Some True \<and>
   (7, ''coupons'', ''coupons'',
      row_id (rows (state_at (deactivating_stmts 50 7 ''coupons'') (Suc 0) scenario)
        ''coupons'' ! 0))
     \<in> conflict_key ` set (feature_deactivated_items
          (state_at (deactivating_stmts 50 7 ''coupons'') (Suc 0) scenario))"
proof -
  have i: "Suc 0 < length (deactivating_stmts 50 7 ''coupons'' ::
       ((unit, unit, unit, unit) db \<Rightarrow> (unit, unit, unit, unit) db) list)"
    by (simp add: deactivating_stmts_def)
  have j: "0 < length (rows (state_at (deactivating_stmts 50 7 ''coupons'') (Suc 0) scenario)
      ''coupons'')"
    unfolding rows_after_insert by (simp add: rows_def scenario_def)
  have b: "is_active (rows (state_at (deactivating_stmts 50 7 ''coupons'') (Suc 0) scenario)
      ''coupons'' ! 0) = Some True"
    unfolding rows_after_insert by (simp add: rows_def scenario_def truncate_simps)
  have a: "is_active (rows (state_at (deactivating_stmts 50 7 ''coupons'') (Suc (Suc 0)) scenario)
      ''coupons'' ! 0) \<noteq> Some True"
    unfolding state_after_update rows_deactivating
    by (simp add: target_table_def rows_def scenario_def deactivate_active_def truncate_simps)
  from snapshot_before_deactivate [of 50 7 "''coupons''" scenario] i j b a
  show ?thesis by blast
qed

subsection \<open>Restoration\<close>

lemma unchanged_outside_refl: "unchanged_outside S tbl tbl"
  by (simp add: unchanged_outside_def)

lemma unchanged_outside_restore: "unchanged_outside (set ids) tbl (restore_ids ids tbl)"
  by (simp add: unchanged_outside_def restore_ids_def)

lemma restore_keeps_active:
  "j < length tbl \<Longrightarrow> is_active (tbl ! j) = Some True \<Longrightarrow>
   is_active (restore_ids ids tbl ! j) = Some True"
  by (simp add: restore_ids_nth)

lemma reactivating_keeps_active:
  "j < length (rows s t) \<Longrightarrow> is_active (rows s t ! j) = Some True \<Longrightarrow>
   is_active (rows (reactivating v k s) t ! j) = Some True"
  by (simp add: rows_reactivating restore_keeps_active)

lemma reactivating_unchanged_outside:
  "unchanged_outside (set (snapshot_ids v k ''coupons'' (feature_deactivated_items s)))
     (coupons s) (coupons (reactivating v k s))"
  "unchanged_outside (set (snapshot_ids v k ''promotions'' (feature_deactivated_items s)))
     (promotions s) (promotions (reactivating v k s))"
  "unchanged_outside (set (snapshot_ids v k ''delivery_drivers'' (feature_deactivated_items s)))
     (delivery_drivers s) (delivery_drivers (reactivating v k s))"
  "unchanged_outside (set (snapshot_ids v k ''tables'' (feature_deactivated_items s)))
     (tables s) (tables (reactivating v k s))"
  using target_table_cases [of k]
  by (auto simp: reactivating_simps reactivating_other unchanged_outside_refl
      unchanged_outside_restore)

text \<open>
  C4. The reactivation branch leaves every target row whose \<^verbatim>\<open>id\<close> is not in the snapshot
  of the company, feature key and table exactly as it was, and it never takes a row from
  active to not active: a record activated by someone else while the feature was off
  stays active.
\<close>

theorem restore_only_snapshotted:
  "unchanged_outside (set (snapshot_ids v k ''coupons'' (feature_deactivated_items s)))
     (coupons s) (coupons (reactivating v k s)) \<and>
   unchanged_outside (set (snapshot_ids v k ''promotions'' (feature_deactivated_items s)))
     (promotions s) (promotions (reactivating v k s)) \<and>
   unchanged_outside (set (snapshot_ids v k ''delivery_drivers'' (feature_deactivated_items s)))
     (delivery_drivers s) (delivery_drivers (reactivating v k s)) \<and>
   unchanged_outside (set (snapshot_ids v k ''tables'' (feature_deactivated_items s)))
     (tables s) (tables (reactivating v k s)) \<and>
   (\<forall>t j. j < length (rows s t) \<longrightarrow> is_active (rows s t ! j) = Some True \<longrightarrow>
      is_active (rows (reactivating v k s) t ! j) = Some True)"
  by (simp add: reactivating_unchanged_outside reactivating_keeps_active)

lemma coupon4_activated_eval:
  "coupon4_activated = scenario
     \<lparr>coupons :=
        [\<lparr>row_id = 1, row_company_id = Some 7, is_active = Some False\<rparr>,
         \<lparr>row_id = 2, row_company_id = Some 7, is_active = Some False\<rparr>,
         \<lparr>row_id = 3, row_company_id = Some 7, is_active = Some False\<rparr>,
         \<lparr>row_id = 4, row_company_id = Some 7, is_active = Some True\<rparr>,
         \<lparr>row_id = 5, row_company_id = Some 8, is_active = Some True\<rparr>],
      feature_deactivated_items :=
        [\<lparr>company_id = 7, feature_key = ''coupons'', table_name = ''coupons'', item_id = 1,
          deactivated_at = Some 50\<rparr>,
         \<lparr>company_id = 7, feature_key = ''coupons'', table_name = ''coupons'', item_id = 2,
          deactivated_at = Some 50\<rparr>,
         \<lparr>company_id = 7, feature_key = ''coupons'', table_name = ''coupons'', item_id = 3,
          deactivated_at = Some 50\<rparr>]\<rparr>"
  by (simp add: coupon4_activated_def coupons_off_eval)

theorem restore_only_snapshotted_witness:
  "3 < length (coupons coupon4_activated) \<and>
   row_id (coupons coupon4_activated ! 3) \<notin>
     set (snapshot_ids 7 ''coupons'' ''coupons'' (feature_deactivated_items coupon4_activated)) \<and>
   coupons (reactivating 7 ''coupons'' coupon4_activated) ! 3 = coupons coupon4_activated ! 3 \<and>
   is_active (coupons (reactivating 7 ''coupons'' coupon4_activated) ! 3) = Some True"
proof -
  have l: "3 < length (coupons coupon4_activated)"
    by (simp add: coupon4_activated_eval)
  have n: "row_id (coupons coupon4_activated ! 3) \<notin>
     set (snapshot_ids 7 ''coupons'' ''coupons'' (feature_deactivated_items coupon4_activated))"
    by (simp add: coupon4_activated_eval snapshot_ids_def)
  have a: "is_active (coupons coupon4_activated ! 3) = Some True"
    by (simp add: coupon4_activated_eval)
  from restore_only_snapshotted [of 7 "''coupons''" coupon4_activated] l n
  have "coupons (reactivating 7 ''coupons'' coupon4_activated) ! 3 = coupons coupon4_activated ! 3"
    unfolding unchanged_outside_def by blast
  with l n a show ?thesis by simp
qed

subsection \<open>Which columns restoration sets\<close>

lemma is_available_restore_ids: "map is_available (restore_ids ids tbl) = map is_available tbl"
  by (simp add: restore_ids_def)

lemma is_available_reactivating:
  "map is_available (delivery_drivers (reactivating v k s)) = map is_available (delivery_drivers s)"
  using target_table_cases [of k]
  by (auto simp: reactivating_simps reactivating_other is_available_restore_ids)

lemma reactivating_restores:
  "target_table k = Some t \<Longrightarrow> j < length (rows s t) \<Longrightarrow>
   row_id (rows s t ! j) \<in> set (snapshot_ids v k t (feature_deactivated_items s)) \<Longrightarrow>
   is_active (rows (reactivating v k s) t ! j) = Some True"
  by (simp add: rows_reactivating restore_ids_nth)

lemma deactivating_drivers_clears:
  "j < length (delivery_drivers s) \<Longrightarrow> row_company_id (delivery_drivers s ! j) = Some v \<Longrightarrow>
   is_active (delivery_drivers s ! j) = Some True \<Longrightarrow>
   is_active (delivery_drivers (deactivating now v ''drivers'' s) ! j) = Some False \<and>
   is_available (delivery_drivers (deactivating now v ''drivers'' s) ! j) = Some False"
  by (simp add: deactivating_drivers deactivate_active_drivers_def)

text \<open>
  C1 (as amended). The reactivation branch sets \<^verbatim>\<open>is_active\<close> back to true on every row
  of the feature's table whose \<^verbatim>\<open>id\<close> is in the snapshot, for each of the four features,
  and it sets no other column: for \<^verbatim>\<open>drivers\<close> the deactivation branch clears both
  \<^verbatim>\<open>is_active\<close> and \<^verbatim>\<open>is_available\<close> of the company's active drivers, and the
  reactivation branch leaves \<^verbatim>\<open>is_available\<close> of every driver as it finds it.
\<close>

theorem restore_sets_is_active_only:
  "(\<forall>t j. target_table k = Some t \<longrightarrow> j < length (rows s t) \<longrightarrow>
      row_id (rows s t ! j) \<in> set (snapshot_ids v k t (feature_deactivated_items s)) \<longrightarrow>
      is_active (rows (reactivating v k s) t ! j) = Some True) \<and>
   map is_available (delivery_drivers (reactivating v k s)) =
     map is_available (delivery_drivers s) \<and>
   (\<forall>now j. j < length (delivery_drivers s) \<longrightarrow>
      row_company_id (delivery_drivers s ! j) = Some v \<longrightarrow>
      is_active (delivery_drivers s ! j) = Some True \<longrightarrow>
      is_active (delivery_drivers (deactivating now v ''drivers'' s) ! j) = Some False \<and>
      is_available (delivery_drivers (deactivating now v ''drivers'' s) ! j) = Some False)"
  by (simp add: reactivating_restores is_available_reactivating deactivating_drivers_clears)

lemma trigger_activation_off:
  "trigger_feature_toggle_cascade now (activation f v True) (activation f v False) s =
     (case select_key (system_features s) (Some f) of
        None \<Rightarrow> s
      | Some k \<Rightarrow> deactivating now v k s)"
  by (simp add: trigger_unfold v_feature_key_def v_company_id_def activation_def field_def
      coalesce_def split: option.splits)

lemma trigger_activation_on:
  "trigger_feature_toggle_cascade now (activation f v False) (activation f v True) s =
     (case select_key (system_features s) (Some f) of
        None \<Rightarrow> s
      | Some k \<Rightarrow> reactivating v k s)"
  by (simp add: trigger_unfold v_feature_key_def v_company_id_def activation_def field_def
      coalesce_def split: option.splits)

lemma drivers_off_eval:
  "drivers_off = scenario
     \<lparr>delivery_drivers :=
        [\<lparr>row_id = 20, row_company_id = Some 7, is_active = Some False,
          is_available = Some False\<rparr>],
      feature_deactivated_items :=
        [\<lparr>company_id = 7, feature_key = ''drivers'', table_name = ''delivery_drivers'',
          item_id = 20, deactivated_at = Some 50\<rparr>]\<rparr>"
  by (simp add: drivers_off_def trigger_activation_off select_key_def scenario_def
      deactivating_drivers snapshot_active_def deactivate_active_drivers_def)

lemma drivers_on_again_eval:
  "drivers_on_again = scenario
     \<lparr>delivery_drivers :=
        [\<lparr>row_id = 20, row_company_id = Some 7, is_active = Some True,
          is_available = Some False\<rparr>]\<rparr>"
  by (simp add: drivers_on_again_def drivers_off_eval trigger_activation_on select_key_def
      scenario_def reactivating_drivers snapshot_ids_def restore_ids_def clear_snapshot_def)

text \<open>
  C1 as stated does not hold for \<^verbatim>\<open>drivers\<close>: the driver of the scenario is active and
  available; turning the feature off clears both columns and records the driver; turning
  it on again makes the driver active, and \<^verbatim>\<open>is_available\<close> is still false.
\<close>

theorem drivers_is_available_not_restored:
  "row_company_id (delivery_drivers scenario ! 0) = Some 7 \<and>
   is_active (delivery_drivers scenario ! 0) = Some True \<and>
   is_available (delivery_drivers scenario ! 0) = Some True \<and>
   is_active (delivery_drivers drivers_off ! 0) = Some False \<and>
   is_available (delivery_drivers drivers_off ! 0) = Some False \<and>
   row_id (delivery_drivers drivers_off ! 0) \<in>
     set (snapshot_ids 7 ''drivers'' ''delivery_drivers'' (feature_deactivated_items drivers_off)) \<and>
   is_active (delivery_drivers drivers_on_again ! 0) = Some True \<and>
   is_available (delivery_drivers drivers_on_again ! 0) \<noteq> Some True"
  by (simp add: drivers_off_eval drivers_on_again_eval scenario_def snapshot_ids_def)

theorem restore_sets_is_active_only_witness:
  "target_table ''drivers'' = Some ''delivery_drivers'' \<and>
   0 < length (rows drivers_off ''delivery_drivers'') \<and>
   row_id (rows drivers_off ''delivery_drivers'' ! 0) \<in>
     set (snapshot_ids 7 ''drivers'' ''delivery_drivers'' (feature_deactivated_items drivers_off)) \<and>
   is_active (rows (reactivating 7 ''drivers'' drivers_off) ''delivery_drivers'' ! 0) = Some True \<and>
   map is_available (delivery_drivers (reactivating 7 ''drivers'' drivers_off)) = [Some False]"
proof -
  have t: "target_table ''drivers'' = Some ''delivery_drivers''"
    by (simp add: target_table_def)
  have l: "0 < length (rows drivers_off ''delivery_drivers'')"
    by (simp add: rows_def drivers_off_eval scenario_def)
  have m: "row_id (rows drivers_off ''delivery_drivers'' ! 0) \<in>
     set (snapshot_ids 7 ''drivers'' ''delivery_drivers'' (feature_deactivated_items drivers_off))"
    by (simp add: rows_def drivers_off_eval scenario_def snapshot_ids_def truncate_simps)
  have a: "map is_available (delivery_drivers drivers_off) = [Some False]"
    by (simp add: drivers_off_eval scenario_def)
  from restore_sets_is_active_only [of "''drivers''" drivers_off 7] t l m a
  show ?thesis by simp
qed

subsection \<open>Off and on again\<close>

lemma snapshot_ids_mem:
  "i \<in> set (snapshot_ids v k t fdi) \<longleftrightarrow> (v, k, t, i) \<in> conflict_key ` set fdi"
  by (auto simp: snapshot_ids_def conflict_key_def image_iff)

lemma set_active_again:
  "is_active (r :: target_row) = Some True \<Longrightarrow> r\<lparr>is_active := Some False, is_active := Some True\<rparr> = r"
  by (cases r) simp

lemma round_trip_rows:
  assumes t: "target_table k = Some t"
    and j: "j < length (rows s t)"
    and own: "row_company_id (rows s t ! j) = Some v"
    and act: "is_active (rows s t ! j) = Some True"
  shows "is_active (rows (deactivating now v k s) t ! j) = Some False"
    and "rows (reactivating v k (deactivating now v k s)) t ! j = rows s t ! j"
proof -
  from t j own act show "is_active (rows (deactivating now v k s) t ! j) = Some False"
    by (simp add: rows_deactivating deactivate_active_nth)
  from j have "rows s t ! j \<in> set (rows s t)" by simp
  from snapshot_active_covers [OF this own act]
  have "row_id (rows s t ! j)
          \<in> set (snapshot_ids v k t (snapshot_active now v k t (rows s t)
                (feature_deactivated_items s)))"
    by (simp add: snapshot_ids_mem)
  with t j own act show "rows (reactivating v k (deactivating now v k s)) t ! j = rows s t ! j"
    by (simp add: rows_reactivating rows_deactivating fdi_deactivating restore_ids_nth
        deactivate_active_nth length_deactivate_active set_active_again)
qed

lemma round_trip_length:
  "length (rows (reactivating v k (deactivating now v k s)) t) = length (rows s t)"
  by (simp add: rows_reactivating rows_deactivating length_restore_ids length_deactivate_active)

text \<open>
  C2. For a feature whose key has a branch, turning it off for a company and then on
  again, with nothing in between, leaves every row of the feature's table that was the
  company's and active as it was at the start (it is inactive after the first step), and
  leaves no snapshot row for the company, the feature key and the table.
\<close>

theorem round_trip:
  "select_key (system_features s) (Some f) = Some k \<Longrightarrow> target_table k = Some t \<Longrightarrow>
   s1 = trigger_feature_toggle_cascade now (activation f v True) (activation f v False) s \<Longrightarrow>
   s2 = trigger_feature_toggle_cascade now' (activation f v False) (activation f v True) s1 \<Longrightarrow>
     length (rows s2 t) = length (rows s t) \<and>
     (\<forall>j<length (rows s t).
        row_company_id (rows s t ! j) = Some v \<and> is_active (rows s t ! j) = Some True \<longrightarrow>
        is_active (rows s1 t ! j) = Some False \<and> rows s2 t ! j = rows s t ! j) \<and>
     snapshot_ids v k t (feature_deactivated_items s2) = []"
proof -
  assume key: "select_key (system_features s) (Some f) = Some k"
    and t: "target_table k = Some t"
    and s1: "s1 = trigger_feature_toggle_cascade now (activation f v True) (activation f v False) s"
    and s2: "s2 = trigger_feature_toggle_cascade now' (activation f v False) (activation f v True) s1"
  from key s1 have d: "s1 = deactivating now v k s"
    by (simp add: trigger_activation_off)
  with key s2 have r: "s2 = reactivating v k (deactivating now v k s)"
    by (simp add: trigger_activation_on system_features_deactivating)
  show ?thesis
    unfolding r d
    using round_trip_rows [OF t, of _ s v now] no_snapshot_left [OF t]
    by (simp add: round_trip_length)
qed

theorem round_trip_witness:
  "select_key (system_features scenario) (Some 100) = Some ''coupons'' \<and>
   target_table ''coupons'' = Some ''coupons'' \<and>
   2 < length (rows scenario ''coupons'') \<and>
   row_company_id (rows scenario ''coupons'' ! 2) = Some 7 \<and>
   is_active (rows scenario ''coupons'' ! 2) = Some True \<and>
   is_active (rows coupons_off ''coupons'' ! 2) = Some False \<and>
   rows (trigger_feature_toggle_cascade 60 (activation 100 7 False) (activation 100 7 True)
           coupons_off) ''coupons'' ! 2 = rows scenario ''coupons'' ! 2 \<and>
   snapshot_ids 7 ''coupons'' ''coupons''
     (feature_deactivated_items
        (trigger_feature_toggle_cascade 60 (activation 100 7 False) (activation 100 7 True)
           coupons_off)) = []"
proof -
  have k: "select_key (system_features scenario) (Some 100) = Some ''coupons''"
    by (simp add: select_key_def scenario_def)
  have t: "target_table ''coupons'' = Some ''coupons''"
    by (simp add: target_table_def)
  have l: "2 < length (rows scenario ''coupons'')"
    by (simp add: rows_def scenario_def)
  have o: "row_company_id (rows scenario ''coupons'' ! 2) = Some 7"
    by (simp add: rows_def scenario_def truncate_simps)
  have a: "is_active (rows scenario ''coupons'' ! 2) = Some True"
    by (simp add: rows_def scenario_def truncate_simps)
  from round_trip [OF k t coupons_off_def refl, of 60] l o a k t
  show ?thesis by blast
qed

text \<open>
  The scenario to its end: with \<^verbatim>\<open>coupons\<close> turned on again, coupons 1 to 3 are active
  as at the start, coupon 4 is still active, and no snapshot row is left.
\<close>

lemma coupons_on_again:
  "trigger_feature_toggle_cascade 60 (activation 100 7 False) (activation 100 7 True)
     coupon4_activated =
   scenario
     \<lparr>coupons :=
        [\<lparr>row_id = 1, row_company_id = Some 7, is_active = Some True\<rparr>,
         \<lparr>row_id = 2, row_company_id = Some 7, is_active = Some True\<rparr>,
         \<lparr>row_id = 3, row_company_id = Some 7, is_active = Some True\<rparr>,
         \<lparr>row_id = 4, row_company_id = Some 7, is_active = Some True\<rparr>,
         \<lparr>row_id = 5, row_company_id = Some 8, is_active = Some True\<rparr>]\<rparr>"
  by (simp add: coupon4_activated_eval trigger_activation_on select_key_def scenario_def
      reactivating_coupons snapshot_ids_def restore_ids_def clear_snapshot_def)

subsection \<open>Whose rows the snapshot names\<close>






























end
